theory Spec2Isabelle
  imports Complex_Main
begin

section \<open>Text\<close>

text \<open>
  A Python \<open>str\<close> is a sequence of Unicode code points, so it is modelled as a list of
  code points. \<open>lit\<close> turns an ASCII literal into such a list; the Chinese literals of
  \<open>ticket.py\<close> are written out as code points.
\<close>

type_synonym str = "nat list"

definition lit :: "string \<Rightarrow> str" where
  "lit s = map of_char s"

text \<open>\<open>sep.join(xs)\<close>.\<close>

fun join :: "str \<Rightarrow> str list \<Rightarrow> str" where
  "join sep [] = []"
| "join sep [x] = x"
| "join sep (x # y # ys) = x @ sep @ join sep (y # ys)"

text \<open>\<open>p in s\<close> for two strings: \<open>p\<close> occurs in \<open>s\<close> as a contiguous piece.\<close>

fun py_in :: "str \<Rightarrow> str \<Rightarrow> bool" where
  "py_in p [] = (p = [])"
| "py_in p (c # cs) = (take (length p) (c # cs) = p \<or> py_in p cs)"

text \<open>
  The code points for which \<open>str.isspace\<close> holds; \<open>str.strip()\<close> removes them from both
  ends.
\<close>

definition py_isspace :: "nat \<Rightarrow> bool" where
  "py_isspace c = ((9 \<le> c \<and> c \<le> 13) \<or> (28 \<le> c \<and> c \<le> 32) \<or> c = 133 \<or> c = 160
     \<or> c = 5760 \<or> (8192 \<le> c \<and> c \<le> 8202) \<or> c = 8232 \<or> c = 8233 \<or> c = 8239
     \<or> c = 8287 \<or> c = 12288)"

definition strip :: "str \<Rightarrow> str" where
  "strip s = rev (dropWhile py_isspace (rev (dropWhile py_isspace s)))"

text \<open>
  The decimal digits \<open>int()\<close> and the pattern \<open>\d\<close> accept: ten consecutive code points
  from each zero listed here (the table of Unicode 14, the one of CPython 3.11).
\<close>

definition decimal_zeros :: "nat list" where
  "decimal_zeros = [48, 1632, 1776, 1984, 2406, 2534, 2662, 2790, 2918, 3046, 3174, 3302,
     3430, 3558, 3664, 3792, 3872, 4160, 4240, 6112, 6160, 6470, 6608, 6784, 6800, 6992,
     7088, 7232, 7248, 42528, 43216, 43264, 43472, 43504, 43600, 44016, 65296, 66720,
     68912, 69734, 69872, 69942, 70096, 70384, 70736, 70864, 71248, 71360, 71472, 71904,
     72016, 72784, 73040, 73120, 92768, 92864, 93008, 120782, 120792, 120802, 120812,
     120822, 123200, 123632, 125264, 130032]"

definition py_digit :: "nat \<Rightarrow> nat option" where
  "py_digit c = (case find (\<lambda>z. z \<le> c \<and> c < z + 10) decimal_zeros of
                  None \<Rightarrow> None
                | Some z \<Rightarrow> Some (c - z))"

section \<open>Exceptions\<close>

datatype exn = AttributeError | ValueError | OverflowError | AssertionError

section \<open>Integers and text\<close>

text \<open>\<open>str(n)\<close> for an integer: its decimal digits, with a minus sign when negative.\<close>

fun show_nat :: "nat \<Rightarrow> str" where
  "show_nat n = (if n < 10 then [48 + n] else show_nat (n div 10) @ [48 + n mod 10])"

declare show_nat.simps [simp del]

definition show_int :: "int \<Rightarrow> str" where
  "show_int i = (if i < 0 then 45 # show_nat (nat (- i)) else show_nat (nat i))"

text \<open>
  \<open>int(s)\<close> for a string with no white space at either end: an optional sign, then
  decimal digits, with single underscores allowed between digits. Anything else raises
  \<open>ValueError\<close>, and so does a string of more than \<open>MAX_STR_DIGITS\<close> digits (the sign and
  the underscores not counted, leading zeros counted): the limit CPython 3.11 sets on the
  conversion of a string to an integer, at its default of 4300.
\<close>

definition MAX_STR_DIGITS :: nat where
  "MAX_STR_DIGITS = 4300"

fun int_digits :: "nat \<Rightarrow> str \<Rightarrow> nat option" where
  "int_digits acc [] = Some acc"
| "int_digits acc (c # cs) =
     (if c = 95 then
        (case cs of
           [] \<Rightarrow> None
         | d # ds \<Rightarrow> (case py_digit d of
                       None \<Rightarrow> None
                     | Some v \<Rightarrow> int_digits (acc * 10 + v) ds))
      else
        (case py_digit c of
           None \<Rightarrow> None
         | Some v \<Rightarrow> int_digits (acc * 10 + v) cs))"

definition unsigned_int :: "str \<Rightarrow> exn + nat" where
  "unsigned_int s =
     (case s of
        [] \<Rightarrow> Inl ValueError
      | d # ds \<Rightarrow> (case py_digit d of
                    None \<Rightarrow> Inl ValueError
                  | Some v \<Rightarrow> (case int_digits v ds of
                                 None \<Rightarrow> Inl ValueError
                               | Some n \<Rightarrow>
                                   if length (filter (\<lambda>c. c \<noteq> 95) s) > MAX_STR_DIGITS
                                   then Inl ValueError else Inr n)))"

definition py_int :: "str \<Rightarrow> exn + int" where
  "py_int s =
     (case s of
        [] \<Rightarrow> Inl ValueError
      | c # cs \<Rightarrow>
          if c = 45 then map_sum id (\<lambda>n. - int n) (unsigned_int cs)
          else if c = 43 then map_sum id int (unsigned_int cs)
          else map_sum id int (unsigned_int s))"

section \<open>Decoded JSON\<close>

text \<open>
  The values \<open>ticket.py\<close> reads out of a decoded response and turns into text: \<open>None\<close>,
  booleans, integers, floats and strings. A float is given by the text Python prints for
  it (\<open>1.0\<close>, \<open>-0.0\<close>, \<open>1e+16\<close>, \<open>nan\<close>), which is all the program uses of it. An integer
  is one the decoder has read, with \<open>int()\<close>, so it has at most \<open>MAX_STR_DIGITS\<close> digits and
  \<open>str()\<close> of it does not raise. Lists and objects as values of these members are outside
  the model.
\<close>

datatype scalar = JNull | JBool bool | JInt int | JFloat str | JStr str

text \<open>\<open>str(v)\<close>, which is also what an f-string prints for \<open>v\<close>.\<close>

fun py_str :: "scalar \<Rightarrow> str" where
  "py_str JNull = lit ''None''"
| "py_str (JBool b) = (if b then lit ''True'' else lit ''False'')"
| "py_str (JInt i) = show_int i"
| "py_str (JFloat t) = t"
| "py_str (JStr s) = s"

text \<open>Truth value of \<open>v\<close>, as \<open>or\<close> and \<open>if\<close> test it.\<close>

fun truthy :: "scalar \<Rightarrow> bool" where
  "truthy JNull = False"
| "truthy (JBool b) = b"
| "truthy (JInt i) = (i \<noteq> 0)"
| "truthy (JFloat t) = (t \<noteq> lit ''0.0'' \<and> t \<noteq> lit ''-0.0'')"
| "truthy (JStr s) = (s \<noteq> [])"

text \<open>\<open>v == n\<close> for an integer literal \<open>n\<close> that is 0 or 1: Python compares numbers by
  value, and \<open>True\<close> and \<open>False\<close> are the numbers 1 and 0.\<close>

fun py_eq_int :: "scalar \<Rightarrow> int \<Rightarrow> bool" where
  "py_eq_int JNull n = False"
| "py_eq_int (JBool b) n = ((if b then 1 else 0) = n)"
| "py_eq_int (JInt i) n = (i = n)"
| "py_eq_int (JFloat t) n =
     ((n = 1 \<and> t = lit ''1.0'') \<or> (n = 0 \<and> (t = lit ''0.0'' \<or> t = lit ''-0.0'')))"
| "py_eq_int (JStr s) n = False"

text \<open>
  An element of the \<open>data\<close> list: a JSON object (a \<open>dict\<close> from member names to values), or
  anything else, on which \<open>.get\<close> raises \<open>AttributeError\<close>. The \<open>dict\<close> is given as a list
  of pairs, of which the first one for a name is the member of that name.
\<close>

datatype slot = Dict "(str \<times> scalar) list" | NotDict

text \<open>\<open>s.get(k, default)\<close>; \<open>s.get(k)\<close> is \<open>s.get(k, None)\<close>.\<close>

fun slot_get :: "slot \<Rightarrow> str \<Rightarrow> scalar \<Rightarrow> exn + scalar" where
  "slot_get NotDict k dflt = Inl AttributeError"
| "slot_get (Dict kvs) k dflt = Inr (case map_of kvs k of None \<Rightarrow> dflt | Some v \<Rightarrow> v)"

section \<open>The slot summarizer\<close>

text \<open>
  The \<open>try\<close> block of \<open>format_available_lines\<close>:
  \<open>nums = int(str(s.get("nums", "0")).strip() or 0)\<close>, where an empty stripped string
  gives \<open>int(0)\<close>; \<open>slot_nums\<close> adds the handler, \<open>nums = 0\<close> on any exception.
\<close>

definition try_nums :: "slot \<Rightarrow> exn + int" where
  "try_nums s =
     (case slot_get s (lit ''nums'') (JStr (lit ''0'')) of
        Inl e \<Rightarrow> Inl e
      | Inr v \<Rightarrow> (let t = strip (py_str v) in if t = [] then Inr 0 else py_int t))"

definition slot_nums :: "slot \<Rightarrow> int" where
  "slot_nums s = (case try_nums s of Inl e \<Rightarrow> 0 | Inr n \<Rightarrow> n)"

text \<open>\<open>ti = s.get("time_interval_str") or s.get("time_interval")\<close>; this line is outside
  the \<open>try\<close> block.\<close>

definition slot_label :: "slot \<Rightarrow> exn + scalar" where
  "slot_label s =
     (case slot_get s (lit ''time_interval_str'') JNull of
        Inl e \<Rightarrow> Inl e
      | Inr a \<Rightarrow> if truthy a then Inr a else slot_get s (lit ''time_interval'') JNull)"

text \<open>The line appended for a slot: the label, a full-width colon (U+FF1A), the count, a
  space and the character U+5F20.\<close>

definition slot_line :: "scalar \<Rightarrow> int \<Rightarrow> str" where
  "slot_line ti nums = py_str ti @ [0xFF1A] @ show_int nums @ [0x20, 0x5F20]"

fun format_available_lines :: "slot list \<Rightarrow> exn + str list" where
  "format_available_lines [] = Inr []"
| "format_available_lines (s # slots) =
     (let nums = slot_nums s in
      if nums > 0 then
        (case slot_label s of
           Inl e \<Rightarrow> Inl e
         | Inr ti \<Rightarrow> map_sum id ((#) (slot_line ti nums)) (format_available_lines slots))
      else format_available_lines slots)"

definition join_lines :: "str list \<Rightarrow> str" where
  "join_lines lines = (if lines \<noteq> [] then join (lit '' | '') lines else [])"

section \<open>Dates\<close>

text \<open>
  A \<open>datetime.date\<close> is modelled by its proleptic Gregorian ordinal (\<open>date.toordinal()\<close>,
  day 1 being 0001-01-01), the number Python itself computes with when a \<open>timedelta\<close> is
  subtracted. Dates are ordered as their ordinals are.
\<close>

type_synonym date = int

definition is_leap :: "int \<Rightarrow> bool" where
  "is_leap y = (y mod 4 = 0 \<and> (y mod 100 \<noteq> 0 \<or> y mod 400 = 0))"

definition days_before_year :: "int \<Rightarrow> int" where
  "days_before_year year =
     (let y = year - 1 in y * 365 + y div 4 - y div 100 + y div 400)"

definition days_in_month :: "int \<Rightarrow> int \<Rightarrow> int" where
  "days_in_month year month =
     (if month = 2 \<and> is_leap year then 29
      else [31, 28, 31, 30, 31, 30, 31, 31, 30, 31, 30, 31] ! nat (month - 1))"

definition days_before_month :: "int \<Rightarrow> int \<Rightarrow> int" where
  "days_before_month year month =
     [0, 31, 59, 90, 120, 151, 181, 212, 243, 273, 304, 334] ! nat (month - 1)
       + (if month > 2 \<and> is_leap year then 1 else 0)"

definition ymd2ord :: "int \<Rightarrow> int \<Rightarrow> int \<Rightarrow> date" where
  "ymd2ord year month day = days_before_year year + days_before_month year month + day"

definition MAXORDINAL :: int where
  "MAXORDINAL = 3652059"

text \<open>\<open>date(year, month, day)\<close>: \<open>ValueError\<close> unless the three name a day of the calendar.\<close>

definition new_date :: "int \<Rightarrow> int \<Rightarrow> int \<Rightarrow> exn + date" where
  "new_date year month day =
     (if 1 \<le> year \<and> year \<le> 9999 \<and> 1 \<le> month \<and> month \<le> 12
         \<and> 1 \<le> day \<and> day \<le> days_in_month year month
      then Inr (ymd2ord year month day) else Inl ValueError)"

text \<open>
  \<open>strptime(s, "%Y-%m-%d")\<close> matches \<open>s\<close> against
  \<open>(\d\d\d\d)-(1[0-2]|0[1-9]|[1-9])-(3[0-1]|[1-2]\d|0[1-9]|[1-9]| [1-9])\<close> and wants nothing
  left over. \<open>month_field\<close> reads the month and the hyphen after it, \<open>day_field\<close> the
  day up to the end of the string.
\<close>

fun month_field :: "str \<Rightarrow> (nat \<times> str) option" where
  "month_field (a # b # c # rest) =
     (if a = 49 \<and> 48 \<le> b \<and> b \<le> 50 \<and> c = 45 then Some (10 + (b - 48), rest)
      else if a = 48 \<and> 49 \<le> b \<and> b \<le> 57 \<and> c = 45 then Some (b - 48, rest)
      else if 49 \<le> a \<and> a \<le> 57 \<and> b = 45 then Some (a - 48, c # rest)
      else None)"
| "month_field [a, b] = (if 49 \<le> a \<and> a \<le> 57 \<and> b = 45 then Some (a - 48, []) else None)"
| "month_field s = None"

fun day_field :: "str \<Rightarrow> nat option" where
  "day_field [a, b] =
     (if a = 51 \<and> (b = 48 \<or> b = 49) then Some (30 + (b - 48))
      else if a = 49 \<or> a = 50 then map_option (\<lambda>v. 10 * (a - 48) + v) (py_digit b)
      else if (a = 48 \<or> a = 32) \<and> 49 \<le> b \<and> b \<le> 57 then Some (b - 48)
      else None)"
| "day_field [a] = (if 49 \<le> a \<and> a \<le> 57 then Some (a - 48) else None)"
| "day_field s = None"

fun year_field :: "str \<Rightarrow> (nat \<times> str) option" where
  "year_field (a # b # c # d # h # rest) =
     (case (py_digit a, py_digit b, py_digit c, py_digit d) of
        (Some x, Some y, Some z, Some w) \<Rightarrow>
          if h = 45 then Some (1000 * x + 100 * y + 10 * z + w, rest) else None
      | _ \<Rightarrow> None)"
| "year_field s = None"

text \<open>\<open>dt.datetime.strptime(date_str, "%Y-%m-%d").date()\<close>.\<close>

definition strptime_date :: "str \<Rightarrow> exn + date" where
  "strptime_date s =
     (case year_field s of
        None \<Rightarrow> Inl ValueError
      | Some (y, s1) \<Rightarrow>
          (case month_field s1 of
             None \<Rightarrow> Inl ValueError
           | Some (m, s2) \<Rightarrow>
               (case day_field s2 of
                  None \<Rightarrow> Inl ValueError
                | Some d \<Rightarrow> new_date (int y) (int m) (int d))))"

text \<open>\<open>d - dt.timedelta(days=n)\<close>: \<open>OverflowError\<close> when the result leaves the range of
  \<open>date\<close>.\<close>

definition date_minus_days :: "date \<Rightarrow> int \<Rightarrow> exn + date" where
  "date_minus_days d n =
     (let ord = d - n in if 0 < ord \<and> ord \<le> MAXORDINAL then Inr ord else Inl OverflowError)"

definition compute_open_date :: "str \<Rightarrow> exn + date" where
  "compute_open_date date_str =
     (case strptime_date date_str of
        Inl e \<Rightarrow> Inl e
      | Inr target \<Rightarrow> date_minus_days target 15)"

section \<open>The availability classifier\<close>

datatype FetchStatus = OK | NOT_OPEN | ERROR

text \<open>
  What \<open>r.json()\<close> returns, as far as \<open>fetch_slots\<close> looks at it. A JSON object gives the
  three members read from it: \<open>code\<close> and \<open>msg\<close> (absent, or a value) and \<open>data\<close> (absent,
  a list, or something that is not a list). Any other JSON value is a Python object that
  has no \<open>.get\<close>.
\<close>

datatype data_value = DataList "slot list" | DataOther

datatype body =
    Obj (code_member: "scalar option") (msg_member: "scalar option")
        (data_member: "data_value option")
  | NotObj

text \<open>
  The response object \<open>r\<close>: \<open>r.json()\<close> raises (with the text of the exception) or returns
  the decoded body; \<open>r.raise_for_status()\<close> raises (with its text) or returns; \<open>r.text\<close>.
\<close>

record response =
  json_result :: "str + body"
  status_error :: "str option"
  resp_text :: str

text \<open>\<open>sess.post(BASE_URL, headers=..., json={"commodity_id": cid, "date": date_str})\<close>
  raises (with the text of the exception) or returns a response.\<close>

datatype post_result = PostRaises str | PostReturns response

type_synonym session = "int \<Rightarrow> str \<Rightarrow> post_result"

definition no_data_marker :: str where
  "no_data_marker = [0x6682, 0x65E0, 0x6570, 0x636E]"

definition login_marker :: str where
  "login_marker = [0x767B, 0x5F55]"

definition please_login_marker :: str where
  "please_login_marker = [0x8BF7, 0x5148, 0x767B, 0x5F55]"

definition network_error_prefix :: str where
  "network_error_prefix = [0x7F51, 0x7EDC, 0x5F02, 0x5E38] @ lit '': ''"

definition http_error_prefix :: str where
  "http_error_prefix = lit ''HTTP'' @ [0x5F02, 0x5E38] @ lit '': ''"

definition json_error_prefix :: str where
  "json_error_prefix = lit ''JSON'' @ [0x89E3, 0x6790, 0x5F02, 0x5E38] @ lit '': ''"

definition response_text_infix :: str where
  "response_text_infix = lit '' | '' @ [0x54CD, 0x5E94, 0x5185, 0x5BB9] @ lit '': ''"

definition token_error_prefix :: str where
  "token_error_prefix =
     [0x63A5, 0x53E3, 0x5F02, 0x5E38, 0x6216] @ lit ''token'' @ [0x65E0, 0x6548] @ lit '': ''"

definition unknown_prefix :: str where
  "unknown_prefix = [0x672A, 0x77E5, 0x8FD4, 0x56DE] @ lit '': code=''"

type_synonym fetched = "FetchStatus \<times> slot list option \<times> str"

text \<open>The part of \<open>fetch_slots\<close> after \<open>data = r.json()\<close> has succeeded.\<close>

definition classify_body :: "body \<Rightarrow> exn + fetched" where
  "classify_body data =
     (case data of
        NotObj \<Rightarrow> Inl AttributeError
      | Obj c m d \<Rightarrow>
          (let code = (case c of None \<Rightarrow> JNull | Some v \<Rightarrow> v);
               msg = py_str (case m of None \<Rightarrow> JStr [] | Some v \<Rightarrow> v)
           in case (py_eq_int code 1, d) of
                (True, Some (DataList slots)) \<Rightarrow> Inr (OK, Some slots, msg)
              | _ \<Rightarrow>
                  if py_eq_int code 0 \<and> py_in no_data_marker msg then Inr (NOT_OPEN, None, msg)
                  else if py_in login_marker msg \<or> py_in please_login_marker msg
                          \<or> py_eq_int code 0
                  then Inr (ERROR, None, token_error_prefix @ msg)
                  else Inr (ERROR, None,
                            unknown_prefix @ py_str code @ lit '', msg='' @ msg)))"

definition fetch_slots :: "session \<Rightarrow> int \<Rightarrow> str \<Rightarrow> exn + fetched" where
  "fetch_slots sess commodity_id date_str =
     (case sess commodity_id date_str of
        PostRaises e \<Rightarrow> Inr (ERROR, None, network_error_prefix @ e)
      | PostReturns r \<Rightarrow>
          (case json_result r of
             Inl e \<Rightarrow>
               (case status_error r of
                  Some e2 \<Rightarrow> Inr (ERROR, None, http_error_prefix @ e2)
                | None \<Rightarrow> Inr (ERROR, None,
                     json_error_prefix @ e @ response_text_infix @ take 200 (resp_text r)))
           | Inr data \<Rightarrow> classify_body data))"

section \<open>Effects\<close>

text \<open>
  What the program does to the outside world is recorded as a list of events, oldest
  first: \<open>Post cid d\<close> is the request \<open>fetch_slots\<close> posts for commodity \<open>cid\<close> and date \<open>d\<close>;
  \<open>Notify key title content\<close> is a call \<open>notify_serverchan(title, content)\<close>, tagged with
  the key the loop was working on; \<open>Send sendkey title content\<close> is the request that call
  posts to the push service; \<open>Log\<close> is a line written to the log, of which only the level
  is kept; \<open>Sleep\<close> is a call of \<open>time.sleep\<close> with its duration in seconds.
\<close>

datatype level = LogInfo | LogWarning | LogError

datatype event =
    Post int str
  | Notify "int \<times> str" str str
  | Send str str str
  | Log level
  | Sleep real

text \<open>
  A computation yields the events it produced and either the exception that ended it or
  its result. \<open>seq\<close> runs a second computation after a first one that did not raise.
\<close>

type_synonym 'a io = "event list \<times> (exn + 'a)"

definition seq :: "'a io \<Rightarrow> ('a \<Rightarrow> 'b io) \<Rightarrow> 'b io" where
  "seq m f =
     (case m of
        (evs, Inl e) \<Rightarrow> (evs, Inl e)
      | (evs, Inr a) \<Rightarrow> (case f a of (evs', r) \<Rightarrow> (evs @ evs', r)))"

section \<open>The notify collaborator\<close>

text \<open>
  The \<open>try\<close> block of \<open>notify_serverchan\<close>: the request is posted, and \<open>requests.post\<close> or
  \<open>raise_for_status\<close> may raise. \<open>delivery\<close> is what the push service does with the
  request: \<open>None\<close> when it is delivered, the text of the exception otherwise.
\<close>

definition try_send :: "str \<Rightarrow> str option \<Rightarrow> str \<Rightarrow> str \<Rightarrow> event list \<times> (str + unit)" where
  "try_send sendkey delivery title content =
     ([Send sendkey title content],
      (case delivery of None \<Rightarrow> Inr () | Some e \<Rightarrow> Inl e))"

definition notify_serverchan :: "str \<Rightarrow> str option \<Rightarrow> str \<Rightarrow> str \<Rightarrow> unit io" where
  "notify_serverchan sendkey delivery title content =
     (if sendkey = [] then ([], Inr ())
      else (case try_send sendkey delivery title content of
              (evs, Inr u) \<Rightarrow> (evs, Inr ())
            | (evs, Inl e) \<Rightarrow> (evs @ [Log LogWarning], Inr ())))"

section \<open>The poll loop\<close>

definition COMMODITY_IDS :: "int list" where
  "COMMODITY_IDS = [1]"

definition TARGET_DATES :: "str list" where
  "TARGET_DATES = [lit ''2025-10-01'']"

definition CHECK_INTERVAL_SEC :: int where
  "CHECK_INTERVAL_SEC = 60"

definition JITTER_SEC :: int where
  "JITTER_SEC = 10"

definition EARLY_CHECK_INTERVAL_SEC :: int where
  "EARLY_CHECK_INTERVAL_SEC = 43200"

text \<open>
  \<open>last_pushed\<close>: a \<open>dict\<close> from keys \<open>(cid, date_str)\<close> to entries
  \<open>{"status": ..., "payload": ...}\<close>.
\<close>

record entry =
  status :: str
  payload :: str

type_synonym key = "int \<times> str"

type_synonym table = "key \<rightharpoonup> entry"

text \<open>\<open>st = last_pushed.get(key, {})\<close>, then \<open>st.get("status")\<close> and \<open>st.get("payload", "")\<close>.\<close>

definition prev_status_of :: "entry option \<Rightarrow> str option" where
  "prev_status_of st = map_option status st"

definition prev_payload_of :: "entry option \<Rightarrow> str" where
  "prev_payload_of st = (case st of None \<Rightarrow> [] | Some e \<Rightarrow> payload e)"

text \<open>Lines 212 to 214, and again 223 to 227: the entry becomes \<open>NOT_OPEN\<close> unless it
  has that status already.\<close>

definition mark_not_open :: "table \<Rightarrow> key \<Rightarrow> table" where
  "mark_not_open last_pushed key =
     (if prev_status_of (last_pushed key) \<noteq> Some (lit ''NOT_OPEN'')
      then last_pushed(key \<mapsto> \<lparr>status = lit ''NOT_OPEN'', payload = []\<rparr>)
      else last_pushed)"

text \<open>Lines 249 to 261.\<close>

definition new_status_of :: "str \<Rightarrow> str" where
  "new_status_of merged = (if merged \<noteq> [] then lit ''HAS_STOCK'' else lit ''NO_STOCK'')"

definition changed :: "entry option \<Rightarrow> str \<Rightarrow> str \<Rightarrow> bool" where
  "changed st new_status merged =
     (Some new_status \<noteq> prev_status_of st
      \<or> (new_status = lit ''HAS_STOCK'' \<and> merged \<noteq> prev_payload_of st))"

text \<open>The two arguments of the call of \<open>notify_serverchan\<close> at line 265.\<close>

definition notify_title :: "key \<Rightarrow> str" where
  "notify_title key =
     [0x5E03, 0x8FBE, 0x62C9, 0x5BAB, 0x20] @ snd key
       @ [0x20, 0x6709, 0x7968, 0x66F4, 0x65B0, 0xFF08, 0x8DEF, 0x7EBF]
       @ show_int (fst key) @ [0xFF09]"

definition notify_content :: "str list \<Rightarrow> str" where
  "notify_content lines = join [10] (map (\<lambda>ln. lit ''- '' @ ln) lines)"

text \<open>
  What the outside world supplies while one key is handled: the session the request goes
  through, what the push service does with a notification, and the number
  \<open>random.random()\<close> returns for the pause after the key.
\<close>

record world =
  sess :: session
  delivery :: "str option"
  pause :: real

text \<open>Lines 244 to 247: the line logged when the key was \<open>NOT_OPEN\<close> before.\<close>

definition opened_log :: "entry option \<Rightarrow> event list" where
  "opened_log st = (if prev_status_of st = Some (lit ''NOT_OPEN'') then [Log LogInfo] else [])"

text \<open>Lines 238 to 277: the key's fetch returned \<open>OK\<close> with \<open>slots\<close>.\<close>

definition handle_ok :: "str \<Rightarrow> world \<Rightarrow> table \<Rightarrow> key \<Rightarrow> slot list \<Rightarrow> table io" where
  "handle_ok sendkey w last_pushed key slots =
     seq ([], format_available_lines slots) (\<lambda>lines.
       let merged = join_lines lines;
           st = last_pushed key;
           new_status = new_status_of merged
       in seq
            (if changed st new_status merged then
               if new_status = lit ''HAS_STOCK'' then
                 seq (opened_log st
                        @ [Log LogInfo, Notify key (notify_title key) (notify_content lines)],
                      Inr ())
                   (\<lambda>u. seq (notify_serverchan sendkey (delivery w) (notify_title key)
                                (notify_content lines))
                     (\<lambda>u. ([], Inr (last_pushed(key \<mapsto>
                                      \<lparr>status = lit ''HAS_STOCK'', payload = merged\<rparr>)))))
               else (opened_log st @ [Log LogInfo],
                     Inr (last_pushed(key \<mapsto> \<lparr>status = lit ''NO_STOCK'', payload = []\<rparr>)))
             else (opened_log st @ [Log LogInfo], Inr last_pushed))
            (\<lambda>tbl. ([Sleep (1 + pause w)], Inr tbl)))"

text \<open>Lines 202 to 277: the body of the two \<open>for\<close> loops, for one key.\<close>

definition loop_body :: "str \<Rightarrow> date \<Rightarrow> world \<Rightarrow> table \<Rightarrow> key \<Rightarrow> table io" where
  "loop_body sendkey today w last_pushed key =
     seq ([], compute_open_date (snd key)) (\<lambda>open_date.
       if today < open_date then ([Log LogInfo], Inr (mark_not_open last_pushed key))
       else
         seq ([Post (fst key) (snd key)], fetch_slots (sess w) (fst key) (snd key))
           (\<lambda>(fstatus, slots, msg).
              if fstatus = NOT_OPEN then ([Log LogInfo], Inr (mark_not_open last_pushed key))
              else if fstatus = ERROR then ([Log LogError], Inr last_pushed)
              else (case slots of
                      None \<Rightarrow> ([], Inl AssertionError)
                    | Some xs \<Rightarrow> handle_ok sendkey w last_pushed key xs)))"

text \<open>The two \<open>for\<close> loops over the keys, each with the world it meets.\<close>

fun run_keys :: "str \<Rightarrow> date \<Rightarrow> (key \<times> world) list \<Rightarrow> table \<Rightarrow> table io" where
  "run_keys sendkey today [] last_pushed = ([], Inr last_pushed)"
| "run_keys sendkey today ((key, w) # rest) last_pushed =
     seq (loop_body sendkey today w last_pushed key) (run_keys sendkey today rest)"

text \<open>Lines 280 to 285. \<open>any\<close> stops at the first date that is in its open window.\<close>

fun any_in_open_window :: "date \<Rightarrow> str list \<Rightarrow> exn + bool" where
  "any_in_open_window today [] = Inr False"
| "any_in_open_window today (date_str # rest) =
     (case compute_open_date date_str of
        Inl e \<Rightarrow> Inl e
      | Inr open_date \<Rightarrow> if today \<ge> open_date then Inr True else any_in_open_window today rest)"

definition base_sleep :: "bool \<Rightarrow> int" where
  "base_sleep in_window = (if in_window then CHECK_INTERVAL_SEC else EARLY_CHECK_INTERVAL_SEC)"

text \<open>\<open>jitter\<close> is the number \<open>random.randint(0, JITTER_SEC)\<close> returns.\<close>

definition sleep_duration :: "date \<Rightarrow> str list \<Rightarrow> int \<Rightarrow> exn + int" where
  "sleep_duration today dates jitter =
     (case any_in_open_window today dates of
        Inl e \<Rightarrow> Inl e
      | Inr in_window \<Rightarrow> Inr (base_sleep in_window + jitter))"

text \<open>
  One pass of \<open>while True\<close>. \<open>c_today\<close> is \<open>now.date()\<close> as read at line 199 and
  \<open>c_today_end\<close> as read at line 280; \<open>c_worlds\<close> gives the world each key meets, in the
  order the loops visit the keys; \<open>c_jitter\<close> is the number \<open>random.randint\<close> returns.
\<close>

record cycle_input =
  c_today :: date
  c_worlds :: "nat \<Rightarrow> world"
  c_today_end :: date
  c_jitter :: int

definition keys_of :: "int list \<Rightarrow> str list \<Rightarrow> key list" where
  "keys_of cids dates = List.product cids dates"

definition cycle :: "str \<Rightarrow> int list \<Rightarrow> str list \<Rightarrow> cycle_input \<Rightarrow> table \<Rightarrow> table io" where
  "cycle sendkey cids dates inp last_pushed =
     (let keys = keys_of cids dates in
      seq (run_keys sendkey (c_today inp) (zip keys (map (c_worlds inp) [0..<length keys]))
             last_pushed)
        (\<lambda>tbl. seq ([], sleep_duration (c_today_end inp) dates (c_jitter inp))
           (\<lambda>secs. ([Log LogInfo, Sleep (of_int secs)], Inr tbl))))"

text \<open>The first passes of \<open>while True\<close>, one for each input, from a given table.\<close>

fun cycles :: "str \<Rightarrow> int list \<Rightarrow> str list \<Rightarrow> cycle_input list \<Rightarrow> table \<Rightarrow> table io" where
  "cycles sendkey cids dates [] last_pushed = ([], Inr last_pushed)"
| "cycles sendkey cids dates (inp # inps) last_pushed =
     seq (cycle sendkey cids dates inp last_pushed) (cycles sendkey cids dates inps)"

text \<open>\<open>main\<close>, cut off after the passes for which input is given: the boot line is logged
  and the loop starts from the empty table.\<close>

definition main :: "str \<Rightarrow> cycle_input list \<Rightarrow> table io" where
  "main sendkey inps =
     seq ([Log LogInfo], Inr ()) (\<lambda>u. cycles sendkey COMMODITY_IDS TARGET_DATES inps Map.empty)"

section \<open>Notions used to state the properties\<close>

text \<open>
  The quantity of a slot as the specification words it: the \<open>nums\<close> member, turned into
  text, stripped of surrounding white space and read as an integer; zero when the member
  is missing or \<open>int()\<close> does not read it as a number.
\<close>

definition quantity :: "slot \<Rightarrow> int" where
  "quantity s =
     (case s of
        NotDict \<Rightarrow> 0
      | Dict kvs \<Rightarrow>
          (case map_of kvs (lit ''nums'') of
             None \<Rightarrow> 0
           | Some v \<Rightarrow> (case py_int (strip (py_str v)) of Inl e \<Rightarrow> 0 | Inr n \<Rightarrow> n)))"

text \<open>The label of a slot: \<open>time_interval_str\<close> when it is set and not empty, else
  \<open>time_interval\<close>.\<close>

definition label :: "slot \<Rightarrow> scalar" where
  "label s =
     (case s of
        NotDict \<Rightarrow> JNull
      | Dict kvs \<Rightarrow>
          (let a = (case map_of kvs (lit ''time_interval_str'') of None \<Rightarrow> JNull | Some v \<Rightarrow> v);
               b = (case map_of kvs (lit ''time_interval'') of None \<Rightarrow> JNull | Some v \<Rightarrow> v)
           in if truthy a then a else b))"

text \<open>The calls of \<open>notify_serverchan\<close> among some events, and the requests posted to the
  ticket service.\<close>

fun notify_calls :: "event list \<Rightarrow> (key \<times> str \<times> str) list" where
  "notify_calls [] = []"
| "notify_calls (Notify k title content # es) = (k, title, content) # notify_calls es"
| "notify_calls (e # es) = notify_calls es"

fun posts :: "event list \<Rightarrow> (int \<times> str) list" where
  "posts [] = []"
| "posts (Post cid d # es) = (cid, d) # posts es"
| "posts (e # es) = posts es"

text \<open>The events that are not calls of \<open>time.sleep\<close>.\<close>

fun not_sleep :: "event \<Rightarrow> bool" where
  "not_sleep (Sleep r) = False"
| "not_sleep e = True"

text \<open>The content of the latest call of \<open>notify_serverchan\<close> made for a key, if any.\<close>

definition last_notify :: "key \<Rightarrow> event list \<Rightarrow> str option" where
  "last_notify k evs =
     (let calls = filter (\<lambda>c. fst c = k) (notify_calls evs)
      in if calls = [] then None else Some (snd (snd (last calls))))"

text \<open>
  The invariant of the table, given the events so far: the status of every entry is one
  of the three literals; the payload is empty for \<open>NOT_OPEN\<close> and \<open>NO_STOCK\<close>; and for
  \<open>HAS_STOCK\<close> the payload is \<open>join_lines lines\<close> for the \<open>lines\<close> listed in the latest
  notification made for the key.
\<close>

definition entry_ok :: "key \<Rightarrow> event list \<Rightarrow> entry \<Rightarrow> bool" where
  "entry_ok k evs e =
     ((status e = lit ''NOT_OPEN'' \<and> payload e = [])
      \<or> (status e = lit ''NO_STOCK'' \<and> payload e = [])
      \<or> (status e = lit ''HAS_STOCK''
          \<and> (\<exists>lines. last_notify k evs = Some (notify_content lines)
                      \<and> payload e = join_lines lines)))"

definition table_ok :: "table \<Rightarrow> event list \<Rightarrow> bool" where
  "table_ok tbl evs = (\<forall>k e. tbl k = Some e \<longrightarrow> entry_ok k evs e)"

text \<open>
  Two worlds that differ at most in the number \<open>random.random()\<close> returns, and two inputs
  of a pass that differ at most in the numbers the random generator returns.
\<close>

definition same_but_pause :: "world \<Rightarrow> world \<Rightarrow> bool" where
  "same_but_pause w w' = (sess w = sess w' \<and> delivery w = delivery w')"

definition same_but_random :: "cycle_input \<Rightarrow> cycle_input \<Rightarrow> bool" where
  "same_but_random a b =
     (c_today a = c_today b \<and> c_today_end a = c_today_end b
      \<and> (\<forall>i. same_but_pause (c_worlds a i) (c_worlds b i)))"

section \<open>Evaluating the definitions\<close>

lemmas text_defs = lit_def strip_def py_isspace_def py_int_def unsigned_int_def py_digit_def
  decimal_zeros_def show_int_def show_nat.simps MAX_STR_DIGITS_def

lemmas date_defs = compute_open_date_def strptime_date_def date_minus_days_def new_date_def
  ymd2ord_def days_before_year_def days_before_month_def days_in_month_def is_leap_def
  MAXORDINAL_def py_digit_def decimal_zeros_def lit_def

lemma status_literals_distinct:
  "lit ''HAS_STOCK'' \<noteq> lit ''NO_STOCK''" "lit ''HAS_STOCK'' \<noteq> lit ''NOT_OPEN''"
  "lit ''NO_STOCK'' \<noteq> lit ''NOT_OPEN''" "lit ''NO_STOCK'' \<noteq> lit ''HAS_STOCK''"
  "lit ''NOT_OPEN'' \<noteq> lit ''HAS_STOCK''" "lit ''NOT_OPEN'' \<noteq> lit ''NO_STOCK''"
  by (simp_all add: lit_def)

section \<open>The slot summarizer: properties\<close>

lemma py_int_zero: "py_int (strip (lit ''0'')) = Inr 0"
  by (simp add: text_defs)

lemma py_int_Nil: "py_int [] = Inl ValueError"
  by (simp add: py_int_def)

lemma slot_nums_quantity: "slot_nums s = quantity s"
proof (cases s)
  case NotDict
  then show ?thesis by (simp add: slot_nums_def try_nums_def quantity_def)
next
  case (Dict kvs)
  show ?thesis
  proof (cases "map_of kvs (lit ''nums'')")
    case None
    with Dict show ?thesis
      using py_int_zero by (simp add: slot_nums_def try_nums_def quantity_def Let_def)
  next
    case (Some v)
    with Dict show ?thesis
      by (simp add: slot_nums_def try_nums_def quantity_def Let_def py_int_Nil)
  qed
qed

lemma slot_label_pos: "0 < quantity s \<Longrightarrow> slot_label s = Inr (label s)"
  by (cases s) (simp_all add: quantity_def slot_label_def label_def Let_def)

lemma format_available_lines_filter:
  "format_available_lines slots =
     Inr (map (\<lambda>s. slot_line (label s) (quantity s)) (filter (\<lambda>s. 0 < quantity s) slots))"
  by (induction slots) (simp_all add: slot_nums_quantity slot_label_pos Let_def)




text \<open>
  The limit on the number of digits: a quantity of 4300 zeros and a one has 4301 digits and
  is not read; one of 4299 zeros and a five has 4300 and is.
\<close>

lemma unsigned_int_over_limit:
  "MAX_STR_DIGITS < length (filter (\<lambda>c. c \<noteq> 95) s) \<Longrightarrow> unsigned_int s = Inl ValueError"
  by (cases s) (simp_all add: unsigned_int_def split: option.splits)

lemma py_int_unsigned:
  "c \<noteq> 45 \<Longrightarrow> c \<noteq> 43 \<Longrightarrow> py_int (c # cs) = map_sum id int (unsigned_int (c # cs))"
  by (simp add: py_int_def)

lemma strip_id:
  assumes "s \<noteq> []" "\<not> py_isspace (hd s)" "\<not> py_isspace (last s)"
  shows "strip s = s"
proof -
  from assms(1,2) have "dropWhile py_isspace s = s" by (cases s) simp_all
  moreover from assms(1,3) have "dropWhile py_isspace (rev s) = rev s"
    by (cases "rev s") (simp_all add: hd_rev[symmetric])
  ultimately show ?thesis by (simp add: strip_def)
qed

lemma long_quantity:
  "quantity (Dict [(lit ''nums'', JStr (replicate 4300 48 @ [49]))]) = 0"
proof -
  have s: "strip (replicate 4300 48 @ [49]) = replicate 4300 48 @ [49]"
    by (rule strip_id) (simp_all add: py_isspace_def hd_append)
  have h: "replicate 4300 48 @ [49] = 48 # (replicate 4299 48 @ [49])"
    by (simp add: replicate_Suc[symmetric] del: replicate_Suc replicate.simps)
  have u: "unsigned_int (replicate 4300 48 @ [49]) = Inl ValueError"
    by (rule unsigned_int_over_limit) (simp add: MAX_STR_DIGITS_def)
  have "py_int (48 # (replicate 4299 48 @ [49]))
      = map_sum id int (unsigned_int (48 # (replicate 4299 48 @ [49])))"
    by (rule py_int_unsigned) simp_all
  then have "py_int (replicate 4300 48 @ [49])
      = map_sum id int (unsigned_int (replicate 4300 48 @ [49]))"
    by (simp only: h[symmetric])
  with u have "py_int (replicate 4300 48 @ [49]) = Inl ValueError" by simp
  then show ?thesis by (simp add: quantity_def s)
qed

lemma py_digit_zero: "py_digit 48 = Some 0"
  by (simp add: py_digit_def decimal_zeros_def)

lemma int_digits_zeros: "int_digits 0 (replicate n 48 @ rest) = int_digits 0 rest"
  by (induction n) (simp_all add: py_digit_zero)

lemma limit_quantity:
  "quantity (Dict [(lit ''nums'', JStr (replicate 4299 48 @ [53]))]) = 5"
proof -
  have s: "strip (replicate 4299 48 @ [53]) = replicate 4299 48 @ [53]"
    by (rule strip_id) (simp_all add: py_isspace_def hd_append)
  have h: "replicate 4299 48 @ [53] = 48 # (replicate 4298 48 @ [53])"
    by (simp add: replicate_Suc[symmetric] del: replicate_Suc replicate.simps)
  have d: "int_digits 0 (replicate 4298 48 @ [53]) = Some 5"
    unfolding int_digits_zeros by (simp add: py_digit_def decimal_zeros_def)
  have u: "unsigned_int (48 # (replicate 4298 48 @ [53])) = Inr 5"
    by (simp add: unsigned_int_def py_digit_zero d MAX_STR_DIGITS_def)
  have "py_int (48 # (replicate 4298 48 @ [53]))
      = map_sum id int (unsigned_int (48 # (replicate 4298 48 @ [53])))"
    by (rule py_int_unsigned) simp_all
  with u have "py_int (48 # (replicate 4298 48 @ [53])) = Inr 5" by simp
  then have "py_int (replicate 4299 48 @ [53]) = Inr 5" by (simp only: h)
  then show ?thesis by (simp add: quantity_def s)
qed

section \<open>Dates: properties\<close>

lemma days_before_year_estimate:
  assumes "1 \<le> y"
  shows "0 \<le> days_before_year y" "400 * days_before_year y \<le> 146097 * y - 145701"
proof -
  define z where "z = y - 1"
  define a where "a = z div 4"
  define b where "b = z div 100"
  define c where "c = z div 400"
  have z: "0 \<le> z" "y = z + 1" using assms by (simp_all add: z_def)
  have a: "4 * a \<le> z" unfolding a_def by (simp add: zdiv_mono1)
  have b: "z \<le> 100 * b + 99" unfolding b_def
  proof -
    have "z = 100 * (z div 100) + z mod 100" by simp
    moreover have "z mod 100 < 100" by simp
    ultimately show "z \<le> 100 * (z div 100) + 99" by linarith
  qed
  have c: "400 * c \<le> z" unfolding c_def by simp
  have ba: "b \<le> a" unfolding a_def b_def using z(1) by (intro zdiv_mono2) simp_all
  have c0: "0 \<le> c" unfolding c_def using z(1) by simp
  have d: "days_before_year y = 365 * z + a - b + c"
    by (simp add: days_before_year_def Let_def z_def a_def b_def c_def)
  show "0 \<le> days_before_year y" using z(1) ba c0 unfolding d by linarith
  have "400 * days_before_year y = 146000 * z + 400 * a - 400 * b + 400 * c"
    unfolding d by simp
  also have "\<dots> \<le> 146097 * y - 145701" using z a b c by linarith
  finally show "400 * days_before_year y \<le> 146097 * y - 145701" .
qed

lemma days_before_year_max:
  assumes "1 \<le> y" "y \<le> 9999"
  shows "days_before_year y \<le> 3651694"
proof (cases "y = 9999")
  case True
  then show ?thesis by (simp add: days_before_year_def)
next
  case False
  with assms(2) have "y \<le> 9998" by simp
  with days_before_year_estimate(2)[OF assms(1)] show ?thesis by linarith
qed

lemma days_before_year_leap:
  assumes "1 \<le> y" "y \<le> 9999" "is_leap y"
  shows "days_before_year y \<le> 3651693"
proof -
  from assms(3) have "y mod 4 = 0" by (simp add: is_leap_def)
  with assms(2) have "y \<le> 9996" by presburger
  with days_before_year_estimate(2)[OF assms(1)] show ?thesis by linarith
qed


lemma day_of_year_bounds:
  assumes "1 \<le> m" "m \<le> 12" "1 \<le> d" "d \<le> days_in_month y m"
  shows "1 \<le> days_before_month y m + d \<and>
         days_before_month y m + d \<le> 365 + (if is_leap y then 1 else 0)"
proof -
  from assms(1,2) have "m = 1 \<or> m = 2 \<or> m = 3 \<or> m = 4 \<or> m = 5 \<or> m = 6
      \<or> m = 7 \<or> m = 8 \<or> m = 9 \<or> m = 10 \<or> m = 11 \<or> m = 12"
    by presburger
  then show ?thesis
    using assms(3,4)
    by (elim disjE) (simp_all add: days_before_month_def days_in_month_def split: if_splits)
qed

lemma new_date_range:
  assumes "new_date y m d = Inr t"
  shows "1 \<le> t \<and> t \<le> MAXORDINAL"
proof -
  from assms have b: "1 \<le> y" "y \<le> 9999" "1 \<le> m" "m \<le> 12" "1 \<le> d" "d \<le> days_in_month y m"
    and t: "t = days_before_year y + (days_before_month y m + d)"
    by (simp_all add: new_date_def ymd2ord_def split: if_splits)
  note e = days_before_year_estimate(1)[OF b(1)] days_before_year_max[OF b(1,2)]
    day_of_year_bounds[OF b(3-6)]
  show ?thesis
  proof (cases "is_leap y")
    case True
    with e days_before_year_leap[OF b(1,2)] t show ?thesis by (simp add: MAXORDINAL_def)
  next
    case False
    with e t show ?thesis by (simp add: MAXORDINAL_def)
  qed
qed

lemma strptime_date_range:
  "strptime_date s = Inr t \<Longrightarrow> 1 \<le> t \<and> t \<le> MAXORDINAL"
  unfolding strptime_date_def
  by (simp split: option.splits prod.splits) (blast dest: new_date_range)

lemma any_in_open_window_iff:
  "any_in_open_window now dates = Inr b \<Longrightarrow>
     b = (\<exists>d \<in> set dates. \<exists>od. compute_open_date d = Inr od \<and> od \<le> now)"
proof (induction dates)
  case Nil
  then show ?case by simp
next
  case (Cons d dates)
  then show ?case by (cases "compute_open_date d") (auto split: if_splits)
qed


lemma open_date_example: "compute_open_date (lit ''2025-10-01'') = Inr (ymd2ord 2025 9 16)"
  by (simp add: date_defs)

lemma strptime_example: "strptime_date (lit ''2025-10-01'') = Inr 739525"
  by (simp add: date_defs)

section \<open>The classifier: properties\<close>

text \<open>The decision rule of \<open>fetch_slots\<close> on a body that is a JSON object.\<close>

lemma classify_body_rule:
  "classify_body (Obj c m d) =
     (let code = (case c of None \<Rightarrow> JNull | Some v \<Rightarrow> v);
          msg = py_str (case m of None \<Rightarrow> JStr [] | Some v \<Rightarrow> v)
      in if py_eq_int code 1 \<and> (\<exists>slots. d = Some (DataList slots))
         then Inr (OK, Some (case d of Some (DataList slots) \<Rightarrow> slots), msg)
         else if py_eq_int code 0 \<and> py_in no_data_marker msg then Inr (NOT_OPEN, None, msg)
         else Inr (ERROR, None,
                if py_in login_marker msg \<or> py_in please_login_marker msg \<or> py_eq_int code 0
                then token_error_prefix @ msg
                else unknown_prefix @ py_str code @ lit '', msg='' @ msg))"
  by (cases d; cases "the d"; cases "py_eq_int (case c of None \<Rightarrow> JNull | Some v \<Rightarrow> v) 1")
     (simp_all add: classify_body_def Let_def)

text \<open>
  Claim C3. The classifier is meant to return \<open>Open\<close>, \<open>NotYetOpen\<close> or \<open>Error\<close> for every
  response. For a response whose body is valid JSON but not an object (here the body
  \<open>[]\<close>), \<open>r.json()\<close> succeeds and \<open>data.get("code")\<close> raises \<open>AttributeError\<close>: \<open>fetch_slots\<close>
  returns nothing, and the exception ends the loop body and with it the program.
\<close>

theorem fetch_slots_raises_on_non_object_body:
  "fetch_slots (\<lambda>cid d. PostReturns \<lparr>json_result = Inr NotObj, status_error = None,
                                      resp_text = lit ''[]''\<rparr>) 1 (lit ''2025-10-01'')
     = Inl AttributeError
   \<and> loop_body sendkey (ymd2ord 2025 9 20)
        \<lparr>sess = (\<lambda>cid d. PostReturns \<lparr>json_result = Inr NotObj, status_error = None,
                                      resp_text = lit ''[]''\<rparr>),
         delivery = None, pause = 0\<rparr> Map.empty (1, lit ''2025-10-01'')
     = ([Post 1 (lit ''2025-10-01'')], Inl AttributeError)"
  by (simp add: fetch_slots_def classify_body_def loop_body_def seq_def open_date_example)
     (simp add: ymd2ord_def days_before_year_def days_before_month_def is_leap_def)

section \<open>The claims about the summarizer and the scheduler\<close>

text \<open>
  Claim C4. \<open>format_available_lines\<close> never raises; it keeps, in their order, exactly the
  slots whose quantity is positive and renders each as label, full-width colon, quantity,
  space and U+5F20. \<open>join_lines\<close> joins the lines with \<open>" | "\<close> and gives the empty string
  for no line. On the example of the specification the one line kept is
  \<open>10:00-11:00\<close>, colon, \<open>5\<close>, and that line is also the fingerprint. A quantity with
  white space around it is read, one that is not a number or is missing counts as zero,
  and so does one of more digits than \<open>int()\<close> converts (4301 digits; 4300 are read).
\<close>

theorem summarizer_keeps_positive_quantities:
  "format_available_lines slots =
     Inr (map (\<lambda>s. py_str (label s) @ [0xFF1A] @ show_int (quantity s) @ [0x20, 0x5F20])
            (filter (\<lambda>s. 0 < quantity s) slots))
   \<and> join_lines lines = join (lit '' | '') lines
   \<and> join_lines [] = []
   \<and> format_available_lines
        [Dict [(lit ''time_interval_str'', JStr (lit ''09:00-10:00'')),
               (lit ''nums'', JStr (lit ''0''))],
         Dict [(lit ''time_interval_str'', JStr (lit ''10:00-11:00'')),
               (lit ''nums'', JStr (lit ''5''))]]
      = Inr [lit ''10:00-11:00'' @ [0xFF1A] @ lit ''5 '' @ [0x5F20]]
   \<and> join_lines [lit ''10:00-11:00'' @ [0xFF1A] @ lit ''5 '' @ [0x5F20]]
      = lit ''10:00-11:00'' @ [0xFF1A] @ lit ''5 '' @ [0x5F20]
   \<and> quantity (Dict [(lit ''nums'', JStr (lit '' 7 ''))]) = 7
   \<and> quantity (Dict [(lit ''nums'', JStr (lit ''many''))]) = 0
   \<and> quantity (Dict [(lit ''time_interval_str'', JStr (lit ''09:00-10:00''))]) = 0
   \<and> quantity (Dict [(lit ''nums'', JStr (replicate 4300 48 @ [49]))]) = 0
   \<and> quantity (Dict [(lit ''nums'', JStr (replicate 4299 48 @ [53]))]) = 5"
proof (intro conjI)
  show "format_available_lines slots =
     Inr (map (\<lambda>s. py_str (label s) @ [0xFF1A] @ show_int (quantity s) @ [0x20, 0x5F20])
            (filter (\<lambda>s. 0 < quantity s) slots))"
    by (simp add: format_available_lines_filter slot_line_def)
  show "join_lines lines = join (lit '' | '') lines"
    by (simp add: join_lines_def)
  show "join_lines [] = []"
    by (simp add: join_lines_def)
  show "format_available_lines
        [Dict [(lit ''time_interval_str'', JStr (lit ''09:00-10:00'')),
               (lit ''nums'', JStr (lit ''0''))],
         Dict [(lit ''time_interval_str'', JStr (lit ''10:00-11:00'')),
               (lit ''nums'', JStr (lit ''5''))]]
      = Inr [lit ''10:00-11:00'' @ [0xFF1A] @ lit ''5 '' @ [0x5F20]]"
    by (simp add: slot_nums_def try_nums_def slot_label_def slot_line_def text_defs)
  show "join_lines [lit ''10:00-11:00'' @ [0xFF1A] @ lit ''5 '' @ [0x5F20]]
      = lit ''10:00-11:00'' @ [0xFF1A] @ lit ''5 '' @ [0x5F20]"
    by (simp add: join_lines_def)
  show "quantity (Dict [(lit ''nums'', JStr (lit '' 7 ''))]) = 7"
    by (simp add: quantity_def text_defs)
  show "quantity (Dict [(lit ''nums'', JStr (lit ''many''))]) = 0"
    by (simp add: quantity_def text_defs)
  show "quantity (Dict [(lit ''time_interval_str'', JStr (lit ''09:00-10:00''))]) = 0"
    by (simp add: quantity_def text_defs)
  show "quantity (Dict [(lit ''nums'', JStr (replicate 4300 48 @ [49]))]) = 0"
    by (rule long_quantity)
  show "quantity (Dict [(lit ''nums'', JStr (replicate 4299 48 @ [53]))]) = 5"
    by (rule limit_quantity)
qed

text \<open>
  Claim C5, as it is stated, fails for the first fifteen days of the calendar:
  \<open>0001-01-05\<close> is a well-formed date, and subtracting fifteen days from it raises
  \<open>OverflowError\<close>.
\<close>

theorem open_date_year_one_counterexample:
  "strptime_date (lit ''0001-01-05'') = Inr (ymd2ord 1 1 5)
   \<and> compute_open_date (lit ''0001-01-05'') = Inl OverflowError"
  by (simp add: date_defs)

text \<open>
  Claim C5, amended. For a date string that \<open>strptime\<close> accepts and that names a day after
  0001-01-15, \<open>compute_open_date\<close> returns the day fifteen days earlier, a date with no time
  of day; the date is in its open window exactly when today is on or after that day. The
  open date of \<open>2025-10-01\<close> is 2025-09-16; 2025-09-15 is not in the window and 2025-09-16
  is.
\<close>

theorem open_date_is_fifteen_days_before:
  assumes "strptime_date date_str = Inr target" and "15 < target"
  shows "compute_open_date date_str = Inr (target - 15)
         \<and> any_in_open_window now [date_str] = Inr (target - 15 \<le> now)
         \<and> compute_open_date (lit ''2025-10-01'') = Inr (ymd2ord 2025 9 16)
         \<and> any_in_open_window (ymd2ord 2025 9 15) [lit ''2025-10-01''] = Inr False
         \<and> any_in_open_window (ymd2ord 2025 9 16) [lit ''2025-10-01''] = Inr True"
proof -
  from strptime_date_range[OF assms(1)] assms(2)
  have c: "compute_open_date date_str = Inr (target - 15)"
    by (simp add: compute_open_date_def date_minus_days_def assms(1) Let_def)
  have w: "any_in_open_window now [date_str] = Inr (target - 15 \<le> now)"
    by (simp add: c)
  have e: "compute_open_date (lit ''2025-10-01'') = Inr (ymd2ord 2025 9 16)"
    by (rule open_date_example)
  have "any_in_open_window (ymd2ord 2025 9 15) [lit ''2025-10-01''] = Inr False"
    "any_in_open_window (ymd2ord 2025 9 16) [lit ''2025-10-01''] = Inr True"
    by (simp_all add: e) (simp add: ymd2ord_def days_before_year_def days_before_month_def is_leap_def)
  with c w e show ?thesis by simp
qed

theorem open_date_is_fifteen_days_before_witness:
  "strptime_date (lit ''2025-10-01'') = Inr 739525 \<and> (15::int) < 739525
   \<and> compute_open_date (lit ''2025-10-01'') = Inr 739510
   \<and> any_in_open_window 739510 [lit ''2025-10-01''] = Inr True"
  using open_date_is_fifteen_days_before[OF strptime_example, of 739510]
  by (simp add: strptime_example)

section \<open>The poll loop: properties\<close>

lemma notify_serverchan_result:
  "notify_serverchan sendkey dlv title content =
     (if sendkey = [] then []
      else if dlv = None then [Send sendkey title content]
      else [Send sendkey title content, Log LogWarning], Inr ())"
  by (cases dlv) (simp_all add: notify_serverchan_def try_send_def)

lemma notify_calls_append: "notify_calls (xs @ ys) = notify_calls xs @ notify_calls ys"
  by (induction xs rule: notify_calls.induct) simp_all


lemma opened_log_quiet: "notify_calls (opened_log st) = []" "posts (opened_log st) = []"
  by (simp_all add: opened_log_def)

lemma handle_ok_unfold:
  assumes "format_available_lines slots = Inr lines"
  shows "handle_ok sendkey w tbl k slots =
     (if changed (tbl k) (new_status_of (join_lines lines)) (join_lines lines) then
        if join_lines lines \<noteq> [] then
          (opened_log (tbl k)
             @ [Log LogInfo, Notify k (notify_title k) (notify_content lines)]
             @ fst (notify_serverchan sendkey (delivery w) (notify_title k) (notify_content lines))
             @ [Sleep (1 + pause w)],
           Inr (tbl(k \<mapsto> \<lparr>status = lit ''HAS_STOCK'', payload = join_lines lines\<rparr>)))
        else
          (opened_log (tbl k) @ [Log LogInfo, Sleep (1 + pause w)],
           Inr (tbl(k \<mapsto> \<lparr>status = lit ''NO_STOCK'', payload = []\<rparr>)))
      else (opened_log (tbl k) @ [Log LogInfo, Sleep (1 + pause w)], Inr tbl))"
  by (simp add: handle_ok_def seq_def assms Let_def opened_log_def new_status_of_def
      notify_serverchan_result status_literals_distinct)



lemma loop_body_closed:
  assumes "compute_open_date (snd k) = Inr od" "now < od"
  shows "loop_body sendkey now w tbl k = ([Log LogInfo], Inr (mark_not_open tbl k))"
  using assms by (simp add: loop_body_def seq_def)

lemma loop_body_open:
  assumes "compute_open_date (snd k) = Inr od" "od \<le> now"
  shows "loop_body sendkey now w tbl k =
     (case fetch_slots (sess w) (fst k) (snd k) of
        Inl e \<Rightarrow> ([Post (fst k) (snd k)], Inl e)
      | Inr (fstatus, slots, msg) \<Rightarrow>
          (case fstatus of
             NOT_OPEN \<Rightarrow> ([Post (fst k) (snd k), Log LogInfo], Inr (mark_not_open tbl k))
           | ERROR \<Rightarrow> ([Post (fst k) (snd k), Log LogError], Inr tbl)
           | OK \<Rightarrow>
               (case slots of
                  None \<Rightarrow> ([Post (fst k) (snd k)], Inl AssertionError)
                | Some xs \<Rightarrow> (Post (fst k) (snd k) # fst (handle_ok sendkey w tbl k xs),
                              snd (handle_ok sendkey w tbl k xs)))))"
  using assms
  by (simp add: loop_body_def seq_def split: sum.splits prod.splits FetchStatus.splits
      option.splits)



section \<open>The claims about the state machine and the loop\<close>



text \<open>A fetch that meets a transport error is classified \<open>ERROR\<close>.\<close>

lemma error_example:
  "fetch_slots (sess \<lparr>sess = (\<lambda>c d. PostRaises (lit ''timeout'')), delivery = None, pause = 0\<rparr>)
      (fst (1, lit ''2025-10-01'')) (snd (1, lit ''2025-10-01''))
    = Inr (ERROR, None, network_error_prefix @ lit ''timeout'')"
  by (simp add: fetch_slots_def)

text \<open>
  Claim C2. When the open date has come and the fetch for a key is classified \<open>ERROR\<close>, the
  loop body posts the request, logs the error, calls \<open>notify_serverchan\<close> not at all and
  returns the table as it was; the loop goes on with the keys that remain.
\<close>

theorem error_poll_changes_nothing:
  assumes "compute_open_date (snd k) = Inr od" and "od \<le> now"
    and "fetch_slots (sess w) (fst k) (snd k) = Inr (ERROR, slots, msg)"
  shows "loop_body sendkey now w tbl k = ([Post (fst k) (snd k), Log LogError], Inr tbl)
       \<and> notify_calls (fst (loop_body sendkey now w tbl k)) = []
       \<and> run_keys sendkey now ((k, w) # rest) tbl
           = (Post (fst k) (snd k) # Log LogError # fst (run_keys sendkey now rest tbl),
              snd (run_keys sendkey now rest tbl))"
proof -
  have b: "loop_body sendkey now w tbl k = ([Post (fst k) (snd k), Log LogError], Inr tbl)"
    by (simp add: loop_body_open[OF assms(1,2)] assms(3))
  then show ?thesis
    by (cases "run_keys sendkey now rest tbl") (simp add: seq_def)
qed

theorem error_poll_changes_nothing_witness:
  "compute_open_date (lit ''2025-10-01'') = Inr (ymd2ord 2025 9 16)
   \<and> ymd2ord 2025 9 16 \<le> ymd2ord 2025 9 20
   \<and> fetch_slots (\<lambda>c d. PostRaises (lit ''timeout'')) 1 (lit ''2025-10-01'')
       = Inr (ERROR, None, network_error_prefix @ lit ''timeout'')
   \<and> loop_body [] (ymd2ord 2025 9 20)
        \<lparr>sess = (\<lambda>c d. PostRaises (lit ''timeout'')), delivery = None, pause = 0\<rparr>
        [(1, lit ''2025-10-01'') \<mapsto> \<lparr>status = lit ''NO_STOCK'', payload = []\<rparr>]
        (1, lit ''2025-10-01'')
       = ([Post 1 (lit ''2025-10-01''), Log LogError],
          Inr [(1, lit ''2025-10-01'') \<mapsto> \<lparr>status = lit ''NO_STOCK'', payload = []\<rparr>])"
proof -
  have d: "compute_open_date (snd (1::int, lit ''2025-10-01'')) = Inr (ymd2ord 2025 9 16)"
    by (simp add: open_date_example)
  have l: "ymd2ord 2025 9 16 \<le> ymd2ord 2025 9 20"
    by (simp add: ymd2ord_def days_before_month_def)
  from error_poll_changes_nothing[OF d l error_example, of "[]"
      "[(1, lit ''2025-10-01'') \<mapsto> \<lparr>status = lit ''NO_STOCK'', payload = []\<rparr>]" "[]"]
    d l error_example
  show ?thesis by simp
qed





text \<open>The sleep at the end of a pass on 2025-09-20 with jitter 7.\<close>

lemma sleep_example:
  "sleep_duration
     (c_today_end \<lparr>c_today = ymd2ord 2025 9 20, c_worlds = (\<lambda>i. \<lparr>sess = (\<lambda>c d. PostRaises []),
          delivery = None, pause = 0\<rparr>), c_today_end = ymd2ord 2025 9 20, c_jitter = 7\<rparr>)
     TARGET_DATES
     (c_jitter \<lparr>c_today = ymd2ord 2025 9 20, c_worlds = (\<lambda>i. \<lparr>sess = (\<lambda>c d. PostRaises []),
          delivery = None, pause = 0\<rparr>), c_today_end = ymd2ord 2025 9 20, c_jitter = 7\<rparr>)
   = Inr 67"
  by (simp add: sleep_duration_def TARGET_DATES_def open_date_example base_sleep_def
      CHECK_INTERVAL_SEC_def)
     (simp add: ymd2ord_def days_before_month_def)

text \<open>
  Claim C8. The sleep at the end of a pass is the base interval plus the jitter; the base
  is 60 seconds when some target date has reached its open date on the day read at the end
  of the pass, and 43200 seconds otherwise; with the jitter between 0 and \<open>JITTER_SEC\<close>
  the sleep lies between the base and the base plus 10. The pass ends by sleeping that long.
\<close>

theorem sleep_is_base_plus_jitter:
  assumes "sleep_duration (c_today_end inp) dates (c_jitter inp) = Inr secs"
    and "0 \<le> c_jitter inp" and "c_jitter inp \<le> JITTER_SEC"
  shows "(\<exists>base. secs = base + c_jitter inp
            \<and> base = (if \<exists>d \<in> set dates. \<exists>od. compute_open_date d = Inr od
                                             \<and> od \<le> c_today_end inp
                      then 60 else 43200)
            \<and> base \<le> secs \<and> secs \<le> base + 10)
       \<and> (run_keys sendkey (c_today inp)
             (zip (keys_of cids dates) (map (c_worlds inp) [0..<length (keys_of cids dates)])) tbl
            = (evs, Inr tbl') \<longrightarrow>
          cycle sendkey cids dates inp tbl
            = (evs @ [Log LogInfo, Sleep (of_int secs)], Inr tbl'))"
proof -
  from assms(1) obtain b where b: "any_in_open_window (c_today_end inp) dates = Inr b"
    and s: "secs = base_sleep b + c_jitter inp"
    by (auto simp: sleep_duration_def split: sum.splits)
  note i = any_in_open_window_iff[OF b]
  have "base_sleep b = (if \<exists>d \<in> set dates. \<exists>od. compute_open_date d = Inr od
                                             \<and> od \<le> c_today_end inp
                      then 60 else 43200)"
    unfolding i[symmetric]
    by (simp add: base_sleep_def CHECK_INTERVAL_SEC_def EARLY_CHECK_INTERVAL_SEC_def)
  with s assms(2,3) have 1: "\<exists>base. secs = base + c_jitter inp
            \<and> base = (if \<exists>d \<in> set dates. \<exists>od. compute_open_date d = Inr od
                                             \<and> od \<le> c_today_end inp
                      then 60 else 43200)
            \<and> base \<le> secs \<and> secs \<le> base + 10"
    by (simp add: JITTER_SEC_def)
  have 2: "run_keys sendkey (c_today inp)
             (zip (keys_of cids dates) (map (c_worlds inp) [0..<length (keys_of cids dates)])) tbl
            = (evs, Inr tbl') \<longrightarrow>
          cycle sendkey cids dates inp tbl
            = (evs @ [Log LogInfo, Sleep (of_int secs)], Inr tbl')"
    by (simp add: cycle_def Let_def seq_def assms(1))
  from 1 2 show ?thesis by blast
qed

theorem sleep_is_base_plus_jitter_witness:
  "sleep_duration (ymd2ord 2025 9 20) TARGET_DATES 7 = Inr 67
   \<and> (0::int) \<le> 7 \<and> 7 \<le> JITTER_SEC
   \<and> (\<exists>base. (67::int) = base + 7
         \<and> base = (if \<exists>d \<in> set TARGET_DATES. \<exists>od. compute_open_date d = Inr od
                                             \<and> od \<le> ymd2ord 2025 9 20
                    then 60 else 43200)
         \<and> base \<le> 67 \<and> 67 \<le> base + 10)"
proof -
  have j: "0 \<le> c_jitter \<lparr>c_today = ymd2ord 2025 9 20, c_worlds = (\<lambda>i. \<lparr>sess = (\<lambda>c d. PostRaises []),
          delivery = None, pause = 0\<rparr>), c_today_end = ymd2ord 2025 9 20, c_jitter = 7\<rparr>"
    "c_jitter \<lparr>c_today = ymd2ord 2025 9 20, c_worlds = (\<lambda>i. \<lparr>sess = (\<lambda>c d. PostRaises []),
          delivery = None, pause = 0\<rparr>), c_today_end = ymd2ord 2025 9 20, c_jitter = 7\<rparr>
       \<le> JITTER_SEC"
    by (simp_all add: JITTER_SEC_def)
  from sleep_is_base_plus_jitter[OF sleep_example j] sleep_example j
  show ?thesis by simp
qed

section \<open>The invariant of the table\<close>

lemma last_notify_quiet:
  "notify_calls evs' = [] \<Longrightarrow> last_notify k (evs @ evs') = last_notify k evs"
  by (simp add: last_notify_def notify_calls_append)

lemma last_notify_call:
  "notify_calls evs' = [(k', t, c)] \<Longrightarrow>
     last_notify k (evs @ evs') = (if k' = k then Some c else last_notify k evs)"
  by (simp add: last_notify_def notify_calls_append Let_def)

lemma table_ok_quiet:
  assumes "table_ok tbl evs" "notify_calls evs' = []"
  shows "table_ok tbl (evs @ evs')"
  using assms by (simp add: table_ok_def entry_ok_def last_notify_quiet)

lemma table_ok_empty_status:
  assumes "table_ok tbl evs" "notify_calls evs' = []"
    "s = lit ''NOT_OPEN'' \<or> s = lit ''NO_STOCK''"
  shows "table_ok (tbl(k \<mapsto> \<lparr>status = s, payload = []\<rparr>)) (evs @ evs')"
  using assms by (auto simp: table_ok_def entry_ok_def last_notify_quiet)

lemma table_ok_has_stock:
  assumes "table_ok tbl evs" "notify_calls evs' = [(k, t, notify_content lines)]"
  shows "table_ok (tbl(k \<mapsto> \<lparr>status = lit ''HAS_STOCK'', payload = join_lines lines\<rparr>))
           (evs @ evs')"
  unfolding table_ok_def
proof (intro allI impI)
  fix k' e
  assume a: "(tbl(k \<mapsto> \<lparr>status = lit ''HAS_STOCK'', payload = join_lines lines\<rparr>)) k' = Some e"
  show "entry_ok k' (evs @ evs') e"
  proof (cases "k' = k")
    case True
    with a have "e = \<lparr>status = lit ''HAS_STOCK'', payload = join_lines lines\<rparr>" by simp
    with True show ?thesis
      by (auto simp: entry_ok_def last_notify_call[OF assms(2)])
  next
    case False
    with a have "tbl k' = Some e" by simp
    with assms(1) have "entry_ok k' evs e" unfolding table_ok_def by blast
    with False show ?thesis
      by (simp add: entry_ok_def last_notify_call[OF assms(2)])
  qed
qed

lemma handle_ok_step:
  assumes "handle_ok sendkey w tbl k slots = (evs, Inr tbl')"
  shows "(notify_calls evs = []
            \<and> (tbl' = tbl \<or> tbl' = tbl(k \<mapsto> \<lparr>status = lit ''NO_STOCK'', payload = []\<rparr>)))
         \<or> (\<exists>lines. notify_calls evs = [(k, notify_title k, notify_content lines)]
              \<and> tbl' = tbl(k \<mapsto> \<lparr>status = lit ''HAS_STOCK'', payload = join_lines lines\<rparr>))"
  using assms
  by (auto simp: handle_ok_unfold[OF format_available_lines_filter] notify_calls_append
      opened_log_quiet notify_serverchan_result split: if_splits)

lemma loop_body_step:
  assumes "loop_body sendkey now w tbl k = (evs, Inr tbl')"
  shows "(notify_calls evs = []
            \<and> (tbl' = tbl \<or> tbl' = tbl(k \<mapsto> \<lparr>status = lit ''NOT_OPEN'', payload = []\<rparr>)
                \<or> tbl' = tbl(k \<mapsto> \<lparr>status = lit ''NO_STOCK'', payload = []\<rparr>)))
         \<or> (\<exists>lines. notify_calls evs = [(k, notify_title k, notify_content lines)]
              \<and> tbl' = tbl(k \<mapsto> \<lparr>status = lit ''HAS_STOCK'', payload = join_lines lines\<rparr>))"
proof (cases "compute_open_date (snd k)")
  case (Inl e)
  with assms show ?thesis by (simp add: loop_body_def seq_def)
next
  case (Inr od)
  show ?thesis
  proof (cases "now < od")
    case True
    from assms show ?thesis
      unfolding loop_body_closed[OF Inr True]
      by (auto simp: mark_not_open_def split: if_splits)
  next
    case False
    then have le: "od \<le> now" by simp
    show ?thesis
    proof (cases "fetch_slots (sess w) (fst k) (snd k)")
      case (Inl e)
      with assms show ?thesis by (simp add: loop_body_open[OF Inr le])
    next
      case r: (Inr res)
      obtain fstatus slots msg where res: "res = (fstatus, slots, msg)" by (cases res) auto
      show ?thesis
      proof (cases fstatus)
        case OK
        show ?thesis
        proof (cases slots)
          case None
          with assms r res OK show ?thesis by (simp add: loop_body_open[OF Inr le])
        next
          case (Some xs)
          with assms r res OK
          have h: "handle_ok sendkey w tbl k xs = (tl evs, Inr tbl')"
            and e: "evs = Post (fst k) (snd k) # tl evs"
            by (auto simp: loop_body_open[OF Inr le] prod_eq_iff)
          from handle_ok_step[OF h] e show ?thesis
            by (metis notify_calls.simps(3))
        qed
      next
        case NOT_OPEN
        with assms r res show ?thesis
          by (auto simp: loop_body_open[OF Inr le] mark_not_open_def split: if_splits)
      next
        case ERROR
        with assms r res show ?thesis by (auto simp: loop_body_open[OF Inr le])
      qed
    qed
  qed
qed


lemma loop_body_table_ok:
  assumes "table_ok tbl evs0" "loop_body sendkey now w tbl k = (evs, Inr tbl')"
  shows "table_ok tbl' (evs0 @ evs)"
  using loop_body_step[OF assms(2)] assms(1)
  by (auto intro: table_ok_quiet table_ok_empty_status table_ok_has_stock)

lemma seq_Inr:
  assumes "seq m f = (evs, Inr b)"
  obtains evs1 a evs2 where "m = (evs1, Inr a)" "f a = (evs2, Inr b)" "evs = evs1 @ evs2"
  using assms
  by (cases m; cases "snd m"; cases "f (projr (snd m))")
     (auto simp: seq_def split: sum.splits prod.splits)

lemma run_keys_table_ok:
  assumes "table_ok tbl evs0" "run_keys sendkey now kws tbl = (evs, Inr tbl')"
  shows "table_ok tbl' (evs0 @ evs)"
  using assms
proof (induction kws arbitrary: tbl evs0 evs)
  case Nil
  then show ?case by simp
next
  case (Cons kw kws)
  obtain k w where kw: "kw = (k, w)" by (cases kw) auto
  from Cons.prems(2) have "seq (loop_body sendkey now w tbl k) (run_keys sendkey now kws)
      = (evs, Inr tbl')"
    by (simp add: kw)
  then obtain evs1 t1 evs2 where s: "loop_body sendkey now w tbl k = (evs1, Inr t1)"
    "run_keys sendkey now kws t1 = (evs2, Inr tbl')" "evs = evs1 @ evs2"
    by (rule seq_Inr)
  from loop_body_table_ok[OF Cons.prems(1) s(1)] have "table_ok t1 (evs0 @ evs1)" .
  from Cons.IH[OF this s(2)] s(3) show ?case by simp
qed

lemma cycle_table_ok:
  assumes "table_ok tbl evs0" "cycle sendkey cids dates inp tbl = (evs, Inr tbl')"
  shows "table_ok tbl' (evs0 @ evs)"
proof -
  from assms(2) obtain evs1 t1 evs2 where s:
    "run_keys sendkey (c_today inp)
       (zip (keys_of cids dates) (map (c_worlds inp) [0..<length (keys_of cids dates)])) tbl
     = (evs1, Inr t1)"
    "seq ([], sleep_duration (c_today_end inp) dates (c_jitter inp))
       (\<lambda>secs. ([Log LogInfo, Sleep (of_int secs)], Inr t1)) = (evs2, Inr tbl')"
    "evs = evs1 @ evs2"
    unfolding cycle_def Let_def by (rule seq_Inr)
  from s(2) have e: "tbl' = t1" "notify_calls evs2 = []"
    by (auto simp: seq_def split: sum.splits)
  from run_keys_table_ok[OF assms(1) s(1)] have "table_ok t1 (evs0 @ evs1)" .
  from table_ok_quiet[OF this e(2)] e(1) s(3) show ?thesis by simp
qed

lemma cycles_table_ok:
  assumes "table_ok tbl evs0" "cycles sendkey cids dates inps tbl = (evs, Inr tbl')"
  shows "table_ok tbl' (evs0 @ evs)"
  using assms
proof (induction inps arbitrary: tbl evs0 evs)
  case Nil
  then show ?case by simp
next
  case (Cons inp inps)
  from Cons.prems(2) have "seq (cycle sendkey cids dates inp tbl) (cycles sendkey cids dates inps)
      = (evs, Inr tbl')"
    by simp
  then obtain evs1 t1 evs2 where s: "cycle sendkey cids dates inp tbl = (evs1, Inr t1)"
    "cycles sendkey cids dates inps t1 = (evs2, Inr tbl')" "evs = evs1 @ evs2"
    by (rule seq_Inr)
  from cycle_table_ok[OF Cons.prems(1) s(1)] have "table_ok t1 (evs0 @ evs1)" .
  from Cons.IH[OF this s(2)] s(3) show ?case by simp
qed

lemma table_ok_empty: "table_ok Map.empty evs"
  by (simp add: table_ok_def)

text \<open>A pass step that finds stock for the first time.\<close>

lemma stock_example:
  "format_available_lines [Dict [(lit ''time_interval_str'', JStr (lit ''A'')),
                                 (lit ''nums'', JStr (lit ''3''))]]
     = Inr [lit ''A'' @ [0xFF1A] @ lit ''3 '' @ [0x5F20]]"
  by (simp add: slot_nums_def try_nums_def slot_label_def slot_line_def text_defs)

lemma run_example:
  "run_keys [] (ymd2ord 2025 9 20)
     [((1, lit ''2025-10-01''),
       \<lparr>sess = (\<lambda>c d. PostReturns \<lparr>json_result = Inr (Obj (Some (JInt 1)) (Some (JStr (lit ''ok'')))
                 (Some (DataList [Dict [(lit ''time_interval_str'', JStr (lit ''A'')),
                                        (lit ''nums'', JStr (lit ''3''))]]))),
               status_error = None, resp_text = []\<rparr>),
        delivery = None, pause = 0\<rparr>)] Map.empty
   = ([Post 1 (lit ''2025-10-01''), Log LogInfo,
       Notify (1, lit ''2025-10-01'') (notify_title (1, lit ''2025-10-01''))
         (notify_content [lit ''A'' @ [0xFF1A] @ lit ''3 '' @ [0x5F20]]),
       Sleep 1],
      Inr [(1, lit ''2025-10-01'') \<mapsto>
            \<lparr>status = lit ''HAS_STOCK'', payload = lit ''A'' @ [0xFF1A] @ lit ''3 '' @ [0x5F20]\<rparr>])"
proof -
  have d: "compute_open_date (snd (1::int, lit ''2025-10-01'')) = Inr (ymd2ord 2025 9 16)"
    by (simp add: open_date_example)
  have l: "ymd2ord 2025 9 16 \<le> ymd2ord 2025 9 20"
    by (simp add: ymd2ord_def days_before_month_def)
  show ?thesis
    by (simp add: seq_def loop_body_open[OF d l] fetch_slots_def classify_body_def
        handle_ok_unfold[OF stock_example] join_lines_def new_status_of_def changed_def
        prev_status_of_def opened_log_def notify_serverchan_result)
qed

text \<open>
  Claim C9. From the empty table, after any number of passes of the loop and any number of
  keys of a further pass, every entry of the table has one of the three statuses, an empty
  payload when the status is \<open>NOT_OPEN\<close> or \<open>NO_STOCK\<close>, and, when the status is
  \<open>HAS_STOCK\<close>, the fingerprint of the lines listed in the latest notification made for
  its key. The same holds of the table \<open>main\<close> has after the passes it was given input
  for.
\<close>

theorem table_invariant:
  "(cycles sendkey cids dates inps Map.empty = (evs1, Inr tbl1)
      \<and> run_keys sendkey now kws tbl1 = (evs2, Inr tbl2) \<longrightarrow> table_ok tbl2 (evs1 @ evs2))
   \<and> (main sendkey inps = (evs, Inr tbl) \<longrightarrow> table_ok tbl evs)"
proof (intro conjI impI)
  assume a: "cycles sendkey cids dates inps Map.empty = (evs1, Inr tbl1)
      \<and> run_keys sendkey now kws tbl1 = (evs2, Inr tbl2)"
  from cycles_table_ok[OF table_ok_empty, of sendkey cids dates inps evs1 tbl1 "[]"] a
  have "table_ok tbl1 evs1" by simp
  from run_keys_table_ok[OF this] a show "table_ok tbl2 (evs1 @ evs2)" by blast
next
  assume "main sendkey inps = (evs, Inr tbl)"
  then obtain evs2 where "cycles sendkey COMMODITY_IDS TARGET_DATES inps Map.empty
      = (evs2, Inr tbl)" "evs = [Log LogInfo] @ evs2"
    unfolding main_def by (rule seq_Inr) simp
  with cycles_table_ok[OF table_ok_empty, of sendkey COMMODITY_IDS TARGET_DATES inps evs2 tbl
      "[Log LogInfo]"]
  show "table_ok tbl evs" by simp
qed

theorem table_invariant_witness:
  "cycles [] [1] [lit ''2025-10-01''] [] Map.empty = ([], Inr Map.empty)
   \<and> run_keys [] (ymd2ord 2025 9 20)
     [((1, lit ''2025-10-01''),
       \<lparr>sess = (\<lambda>c d. PostReturns \<lparr>json_result = Inr (Obj (Some (JInt 1)) (Some (JStr (lit ''ok'')))
                 (Some (DataList [Dict [(lit ''time_interval_str'', JStr (lit ''A'')),
                                        (lit ''nums'', JStr (lit ''3''))]]))),
               status_error = None, resp_text = []\<rparr>),
        delivery = None, pause = 0\<rparr>)] Map.empty
     = ([Post 1 (lit ''2025-10-01''), Log LogInfo,
         Notify (1, lit ''2025-10-01'') (notify_title (1, lit ''2025-10-01''))
           (notify_content [lit ''A'' @ [0xFF1A] @ lit ''3 '' @ [0x5F20]]),
         Sleep 1],
        Inr [(1, lit ''2025-10-01'') \<mapsto>
              \<lparr>status = lit ''HAS_STOCK'',
               payload = lit ''A'' @ [0xFF1A] @ lit ''3 '' @ [0x5F20]\<rparr>])
   \<and> table_ok [(1, lit ''2025-10-01'') \<mapsto>
            \<lparr>status = lit ''HAS_STOCK'', payload = lit ''A'' @ [0xFF1A] @ lit ''3 '' @ [0x5F20]\<rparr>]
        ([] @ [Post 1 (lit ''2025-10-01''), Log LogInfo,
       Notify (1, lit ''2025-10-01'') (notify_title (1, lit ''2025-10-01''))
         (notify_content [lit ''A'' @ [0xFF1A] @ lit ''3 '' @ [0x5F20]]),
       Sleep 1])"
proof -
  have c: "cycles [] [1] [lit ''2025-10-01''] [] Map.empty = ([], Inr Map.empty)" by simp
  from table_invariant[where sendkey = "[]" and cids = "[1]" and dates = "[lit ''2025-10-01'']"
      and inps = "[]" and ?evs1.0 = "[]" and ?tbl1.0 = Map.empty and now = "ymd2ord 2025 9 20",
      THEN conjunct1, rule_format, OF conjI, OF c run_example] c run_example
  show ?thesis by simp
qed

section \<open>Determinism of the decision\<close>

lemma handle_ok_local:
  assumes "tbl1 k = tbl2 k"
  shows "notify_calls (fst (handle_ok sk1 w1 tbl1 k xs))
           = notify_calls (fst (handle_ok sk2 w2 tbl2 k xs))
       \<and> map_sum id (\<lambda>t. t k) (snd (handle_ok sk1 w1 tbl1 k xs))
           = map_sum id (\<lambda>t. t k) (snd (handle_ok sk2 w2 tbl2 k xs))"
  by (simp add: handle_ok_unfold[OF format_available_lines_filter] assms notify_calls_append
      opened_log_quiet notify_serverchan_result)

lemma loop_body_local:
  assumes "tbl1 k = tbl2 k"
    and "fetch_slots (sess w1) (fst k) (snd k) = fetch_slots (sess w2) (fst k) (snd k)"
  shows "notify_calls (fst (loop_body sk1 now w1 tbl1 k))
           = notify_calls (fst (loop_body sk2 now w2 tbl2 k))
       \<and> map_sum id (\<lambda>t. t k) (snd (loop_body sk1 now w1 tbl1 k))
           = map_sum id (\<lambda>t. t k) (snd (loop_body sk2 now w2 tbl2 k))"
proof (cases "compute_open_date (snd k)")
  case (Inl e)
  then show ?thesis by (simp add: loop_body_def seq_def)
next
  case (Inr od)
  show ?thesis
  proof (cases "now < od")
    case True
    show ?thesis
      by (simp add: loop_body_closed[OF Inr True] mark_not_open_def assms(1))
  next
    case False
    then have le: "od \<le> now" by simp
    show ?thesis
      using assms(1) handle_ok_local[where ?tbl1.0 = tbl1 and ?tbl2.0 = tbl2 and k = k
          and ?sk1.0 = sk1 and ?w1.0 = w1 and ?sk2.0 = sk2 and ?w2.0 = w2]
      by (simp add: loop_body_open[OF Inr le] assms mark_not_open_def
          split: sum.splits prod.splits FetchStatus.splits option.splits)
  qed
qed

lemma seq_agree:
  assumes "snd m = snd m'" "filter P (fst m) = filter P (fst m')"
    and "\<And>a. snd m = Inr a \<Longrightarrow>
           snd (f a) = snd (f' a) \<and> filter P (fst (f a)) = filter P (fst (f' a))"
  shows "snd (seq m f) = snd (seq m' f')
       \<and> filter P (fst (seq m f)) = filter P (fst (seq m' f'))"
proof (cases m)
  case m: (Pair evs r)
  obtain evs' r' where m': "m' = (evs', r')" by (cases m') auto
  from assms(1) m m' have r: "r' = r" by simp
  show ?thesis
  proof (cases r)
    case (Inl e)
    with m m' r assms(2) show ?thesis by (simp add: seq_def)
  next
    case (Inr a)
    with assms(3)[of a] m have "snd (f a) = snd (f' a)"
      "filter P (fst (f a)) = filter P (fst (f' a))" by simp_all
    with m m' r Inr assms(2) show ?thesis
      by (cases "f a"; cases "f' a") (simp add: seq_def)
  qed
qed

lemma handle_ok_pause:
  assumes "same_but_pause w w'"
  shows "snd (handle_ok sk w tbl k xs) = snd (handle_ok sk w' tbl k xs)
       \<and> filter not_sleep (fst (handle_ok sk w tbl k xs))
           = filter not_sleep (fst (handle_ok sk w' tbl k xs))"
  using assms
  by (simp add: handle_ok_unfold[OF format_available_lines_filter] same_but_pause_def)

lemma loop_body_pause:
  assumes "same_but_pause w w'"
  shows "snd (loop_body sk now w tbl k) = snd (loop_body sk now w' tbl k)
       \<and> filter not_sleep (fst (loop_body sk now w tbl k))
           = filter not_sleep (fst (loop_body sk now w' tbl k))"
proof (cases "compute_open_date (snd k)")
  case (Inl e)
  then show ?thesis by (simp add: loop_body_def seq_def)
next
  case (Inr od)
  show ?thesis
  proof (cases "now < od")
    case True
    show ?thesis by (simp add: loop_body_closed[OF Inr True])
  next
    case False
    then have le: "od \<le> now" by simp
    from assms have s: "sess w' = sess w" by (simp add: same_but_pause_def)
    show ?thesis
      using handle_ok_pause[OF assms, of sk tbl k]
      by (simp add: loop_body_open[OF Inr le] s
          split: sum.splits prod.splits FetchStatus.splits option.splits)
  qed
qed

lemma run_keys_pause:
  assumes "list_all2 (\<lambda>a b. fst a = fst b \<and> same_but_pause (snd a) (snd b)) kws kws'"
  shows "snd (run_keys sk now kws tbl) = snd (run_keys sk now kws' tbl)
       \<and> filter not_sleep (fst (run_keys sk now kws tbl))
           = filter not_sleep (fst (run_keys sk now kws' tbl))"
  using assms
proof (induction kws kws' arbitrary: tbl rule: list_all2_induct)
  case Nil
  then show ?case by simp
next
  case (Cons a kws b kws')
  obtain k w where a: "a = (k, w)" by (cases a) auto
  obtain k' w' where b: "b = (k', w')" by (cases b) auto
  from Cons.hyps(1) a b have e: "k' = k" "same_but_pause w w'" by simp_all
  show ?case
    unfolding a b e(1) run_keys.simps
    by (rule seq_agree) (use loop_body_pause[OF e(2)] Cons.IH in simp_all)
qed


lemma zip_worlds_agree:
  assumes "\<And>i. same_but_pause (f i) (g i)"
  shows "list_all2 (\<lambda>a b. fst a = fst b \<and> same_but_pause (snd a) (snd b))
           (zip ks (map f ns)) (zip ks (map g ns))"
  using assms by (simp add: list_all2_conv_all_nth)

lemma cycle_random:
  assumes "same_but_random a b"
  shows "snd (cycle sk cids dates a tbl) = snd (cycle sk cids dates b tbl)
       \<and> filter not_sleep (fst (cycle sk cids dates a tbl))
           = filter not_sleep (fst (cycle sk cids dates b tbl))"
proof -
  from assms have e: "c_today b = c_today a" "c_today_end b = c_today_end a"
    and w: "\<And>i. same_but_pause (c_worlds a i) (c_worlds b i)"
    by (simp_all add: same_but_random_def)
  note r = run_keys_pause[OF zip_worlds_agree[of "c_worlds a" "c_worlds b", OF w]]
  show ?thesis
    unfolding cycle_def Let_def e
    by (rule seq_agree)
       (simp_all add: r seq_def sleep_duration_def split: sum.splits)
qed

lemma cycles_random:
  assumes "list_all2 same_but_random inps inps'"
  shows "snd (cycles sk cids dates inps tbl) = snd (cycles sk cids dates inps' tbl)
       \<and> filter not_sleep (fst (cycles sk cids dates inps tbl))
           = filter not_sleep (fst (cycles sk cids dates inps' tbl))"
  using assms
proof (induction inps inps' arbitrary: tbl rule: list_all2_induct)
  case Nil
  then show ?case by simp
next
  case (Cons a inps b inps')
  show ?case
    unfolding cycles.simps
    by (rule seq_agree) (use cycle_random[OF Cons.hyps(1)] Cons.IH in simp_all)
qed

text \<open>
  Claim C10. Two runs of the loop body for a key that start from the same entry for the
  key and get the same classified fetch make the same calls of \<open>notify_serverchan\<close> and
  leave the same entry for the key (or end with the same exception), whatever else differs
  between them. And two runs of \<open>main\<close> whose inputs differ only in the numbers the random
  generator returns end with the same table (or exception) and produce the same events
  apart from the durations of their sleeps.
\<close>

theorem decisions_do_not_depend_on_randomness:
  "(tbl1 k = tbl2 k
      \<and> fetch_slots (sess w1) (fst k) (snd k) = fetch_slots (sess w2) (fst k) (snd k) \<longrightarrow>
    notify_calls (fst (loop_body sk1 now w1 tbl1 k))
      = notify_calls (fst (loop_body sk2 now w2 tbl2 k))
    \<and> map_sum id (\<lambda>t. t k) (snd (loop_body sk1 now w1 tbl1 k))
      = map_sum id (\<lambda>t. t k) (snd (loop_body sk2 now w2 tbl2 k)))
   \<and> (list_all2 same_but_random inps inps' \<longrightarrow>
    snd (main sk inps) = snd (main sk inps')
    \<and> filter not_sleep (fst (main sk inps)) = filter not_sleep (fst (main sk inps')))"
proof (intro conjI impI)
  assume a: "tbl1 k = tbl2 k
      \<and> fetch_slots (sess w1) (fst k) (snd k) = fetch_slots (sess w2) (fst k) (snd k)"
  then have l: "notify_calls (fst (loop_body sk1 now w1 tbl1 k))
           = notify_calls (fst (loop_body sk2 now w2 tbl2 k))
       \<and> map_sum id (\<lambda>t. t k) (snd (loop_body sk1 now w1 tbl1 k))
           = map_sum id (\<lambda>t. t k) (snd (loop_body sk2 now w2 tbl2 k))"
    by (intro loop_body_local) simp_all
  from l show "notify_calls (fst (loop_body sk1 now w1 tbl1 k))
      = notify_calls (fst (loop_body sk2 now w2 tbl2 k))" by simp
  from l show "map_sum id (\<lambda>t. t k) (snd (loop_body sk1 now w1 tbl1 k))
      = map_sum id (\<lambda>t. t k) (snd (loop_body sk2 now w2 tbl2 k))" by simp
next
  assume "list_all2 same_but_random inps inps'"
  note c = cycles_random[OF this, of sk COMMODITY_IDS TARGET_DATES Map.empty]
  have m: "snd (main sk inps) = snd (main sk inps')
    \<and> filter not_sleep (fst (main sk inps)) = filter not_sleep (fst (main sk inps'))"
    unfolding main_def by (rule seq_agree) (simp_all add: c)
  from m show "snd (main sk inps) = snd (main sk inps')" by simp
  from m show "filter not_sleep (fst (main sk inps)) = filter not_sleep (fst (main sk inps'))"
    by simp
qed

theorem decisions_do_not_depend_on_randomness_witness:
  "list_all2 same_but_random
     [\<lparr>c_today = ymd2ord 2025 9 20,
       c_worlds = (\<lambda>i. \<lparr>sess = (\<lambda>c d. PostRaises []), delivery = None, pause = 1 / 4\<rparr>),
       c_today_end = ymd2ord 2025 9 20, c_jitter = 3\<rparr>]
     [\<lparr>c_today = ymd2ord 2025 9 20,
       c_worlds = (\<lambda>i. \<lparr>sess = (\<lambda>c d. PostRaises []), delivery = None, pause = 3 / 4\<rparr>),
       c_today_end = ymd2ord 2025 9 20, c_jitter = 9\<rparr>]
   \<and> snd (main []
       [\<lparr>c_today = ymd2ord 2025 9 20,
         c_worlds = (\<lambda>i. \<lparr>sess = (\<lambda>c d. PostRaises []), delivery = None, pause = 1 / 4\<rparr>),
         c_today_end = ymd2ord 2025 9 20, c_jitter = 3\<rparr>])
     = snd (main []
       [\<lparr>c_today = ymd2ord 2025 9 20,
         c_worlds = (\<lambda>i. \<lparr>sess = (\<lambda>c d. PostRaises []), delivery = None, pause = 3 / 4\<rparr>),
         c_today_end = ymd2ord 2025 9 20, c_jitter = 9\<rparr>])
   \<and> notify_calls (fst (loop_body [] (ymd2ord 2025 9 20)
        \<lparr>sess = (\<lambda>c d. PostRaises []), delivery = None, pause = 1 / 4\<rparr>
        Map.empty (1, lit ''2025-10-01'')))
     = notify_calls (fst (loop_body (lit ''SCT1'') (ymd2ord 2025 9 20)
        \<lparr>sess = (\<lambda>c d. PostRaises []), delivery = Some [], pause = 3 / 4\<rparr>
        Map.empty (1, lit ''2025-10-01'')))"
proof -
  have s: "list_all2 same_but_random
     [\<lparr>c_today = ymd2ord 2025 9 20,
       c_worlds = (\<lambda>i. \<lparr>sess = (\<lambda>c d. PostRaises []), delivery = None, pause = 1 / 4\<rparr>),
       c_today_end = ymd2ord 2025 9 20, c_jitter = 3\<rparr>]
     [\<lparr>c_today = ymd2ord 2025 9 20,
       c_worlds = (\<lambda>i. \<lparr>sess = (\<lambda>c d. PostRaises []), delivery = None, pause = 3 / 4\<rparr>),
       c_today_end = ymd2ord 2025 9 20, c_jitter = 9\<rparr>]"
    by (simp add: same_but_random_def same_but_pause_def)
  from decisions_do_not_depend_on_randomness[where inps = "[\<lparr>c_today = ymd2ord 2025 9 20,
       c_worlds = (\<lambda>i. \<lparr>sess = (\<lambda>c d. PostRaises []), delivery = None, pause = 1 / 4\<rparr>),
       c_today_end = ymd2ord 2025 9 20, c_jitter = 3\<rparr>]"
      and inps' = "[\<lparr>c_today = ymd2ord 2025 9 20,
       c_worlds = (\<lambda>i. \<lparr>sess = (\<lambda>c d. PostRaises []), delivery = None, pause = 3 / 4\<rparr>),
       c_today_end = ymd2ord 2025 9 20, c_jitter = 9\<rparr>]"
      and sk = "[]" and ?tbl1.0 = Map.empty and ?tbl2.0 = Map.empty
      and k = "(1, lit ''2025-10-01'')" and now = "ymd2ord 2025 9 20"
      and ?sk1.0 = "[]" and ?sk2.0 = "lit ''SCT1''"
      and ?w1.0 = "\<lparr>sess = (\<lambda>c d. PostRaises []), delivery = None, pause = 1 / 4\<rparr>"
      and ?w2.0 = "\<lparr>sess = (\<lambda>c d. PostRaises []), delivery = Some [], pause = 3 / 4\<rparr>"] s
  show ?thesis by simp
qed

end
